theory Spec2Isabelle
  imports Main "HOL-Library.Word"
begin

section \<open>Go values used by the showcase server\<close>

text \<open>
  The handlers of \<open>ShowcaseServer\<close> (package \<open>server\<close>) are embedded as HOL functions.
  Go's \<open>int32\<close> and \<open>int64\<close> are words: \<open>+\<close> wraps around as Go's signed addition does,
  \<open>sint\<close> reads the two's complement value, and a signed comparison \<open>a < b\<close> of the source
  is written \<open>sint a < sint b\<close>. Go's \<open>int\<close> is taken to be 64 bits wide (the size it has on
  every 64-bit platform); a value of type \<open>int\<close> is an \<open>int\<close> of HOL inside that range.
  A Go string is a \<open>string\<close>: the list of its bytes.

  A handler returns Go's pair \<open>(response, error)\<close>: a pair of options, \<open>None\<close> for \<open>nil\<close>.
\<close>

type_synonym int32 = "32 word"
type_synonym int64 = "64 word"

subsection \<open>strconv: \<open>Itoa\<close> and \<open>Atoi\<close>\<close>

text \<open>
  \<open>strconv.Itoa\<close> prints an \<open>int\<close> in base 10: a minus sign for a negative number, then the
  digits taken from the table \<open>"0123456789"\<close>, most significant first, with no leading zero.
\<close>

definition digit_char :: "nat \<Rightarrow> char" where
  "digit_char d = ''0123456789'' ! d"

fun digits :: "nat \<Rightarrow> string" where
  "digits n = (if n < 10 then [digit_char n] else digits (n div 10) @ [digit_char (n mod 10)])"

declare digits.simps [simp del]

definition Itoa :: "int \<Rightarrow> string" where
  "Itoa i = (if i < 0 then CHR ''-'' # digits (nat (- i)) else digits (nat i))"

text \<open>
  \<open>strconv.Atoi\<close> is \<open>ParseInt(s, 10, 0)\<close>: an optional sign \<open>+\<close> or \<open>-\<close>, then one or more
  digits \<open>0\<close> to \<open>9\<close> and nothing else. It fails (a \<open>*NumError\<close>; here \<open>None\<close>) on a syntax
  error and when the value does not fit the 64 bits of \<open>int\<close>. The source only tests
  \<open>err != nil\<close>, so the two kinds of error are not told apart.
\<close>

definition is_digit :: "char \<Rightarrow> bool" where
  "is_digit c = (48 \<le> (of_char c :: nat) \<and> (of_char c :: nat) \<le> 57)"

definition digit_val :: "char \<Rightarrow> nat" where
  "digit_val c = of_char c - 48"

fun parse_digits :: "nat \<Rightarrow> string \<Rightarrow> nat option" where
  "parse_digits n [] = Some n"
| "parse_digits n (c # cs) =
     (if is_digit c then parse_digits (n * 10 + digit_val c) cs else None)"

definition Atoi :: "string \<Rightarrow> int option" where
  "Atoi s =
     (let neg = (s \<noteq> [] \<and> hd s = CHR ''-'');
          ds = (if s \<noteq> [] \<and> (hd s = CHR ''-'' \<or> hd s = CHR ''+'') then tl s else s)
      in if ds = [] then None
         else case parse_digits 0 ds of
                None \<Rightarrow> None
              | Some n \<Rightarrow>
                  if neg then (if n > 2 ^ 63 then None else Some (- int n))
                  else (if n \<ge> 2 ^ 63 then None else Some (int n)))"

subsection \<open>Status values and errors\<close>

text \<open>
  \<open>statuspb.Status\<close>: a code, a message and a list of details (each an \<open>Any\<close>: type URL and
  bytes). The codes are those of package \<open>codes\<close>.
\<close>

record Status =
  Code :: int32
  Message :: string
  Details :: "(string \<times> string) list"

definition OK :: int32 where
  "OK = 0"

definition InvalidArgument :: int32 where
  "InvalidArgument = 3"

definition NotFound :: int32 where
  "NotFound = 5"

text \<open>
  A Go \<open>error\<close> a handler can return: a status error, an error of the transport (what
  \<open>Recv\<close>, \<open>Send\<close> and \<open>SendAndClose\<close> return when they fail), or a run-time panic, in
  which case the handler does not return at all.
\<close>

datatype rpc_error = StatusErr Status | TransportErr string | RuntimePanic

text \<open>
  \<open>status.Error(c, msg)\<close> and \<open>status.Errorf(c, format, ...)\<close> with the message already
  formatted. The source calls them with the codes \<open>InvalidArgument\<close> and \<open>NotFound\<close> only,
  for which they return a status error.
\<close>

definition status_Error :: "int32 \<Rightarrow> string \<Rightarrow> rpc_error" where
  "status_Error c msg = StatusErr \<lparr>Code = c, Message = msg, Details = []\<rparr>"

text \<open>
  \<open>status.ErrorProto(s)\<close> is \<open>FromProto(s).Err()\<close>: \<open>nil\<close> when \<open>s\<close> is \<open>nil\<close> or its code
  is \<open>OK\<close>, and the status as an error otherwise.
\<close>

definition ErrorProto :: "Status option \<Rightarrow> rpc_error option" where
  "ErrorProto s =
     (case s of
        None \<Rightarrow> None
      | Some st \<Rightarrow> if Code st = OK then None else Some (StatusErr st))"

section \<open>The retry sequencer\<close>

text \<open>
  Of the fields of \<open>ShowcaseServer\<close>, the handlers below read and write \<open>retryStore\<close>.
  The clock \<open>nowF\<close> is read once by \<open>SetupRetry\<close>: the Unix time it returns is an argument
  of the model. The mutex \<open>mu\<close> makes each handler's access to the store atomic, which is
  what a function from state to state is. A \<open>nil\<close> map reads as the empty map.
\<close>

record ShowcaseServer =
  retryStore :: "string \<rightharpoonup> Status list"

definition NewShowcaseServer :: ShowcaseServer where
  "NewShowcaseServer = \<lparr>retryStore = Map.empty\<rparr>"

record SetupRetryRequest =
  Responses :: "Status list"

record RetryId =
  Id :: string

datatype Empty = Empty

definition SetupRetry ::
  "ShowcaseServer \<Rightarrow> int64 \<Rightarrow> SetupRetryRequest \<Rightarrow> ShowcaseServer \<times> RetryId option \<times> rpc_error option"
where
  "SetupRetry s now req =
     (if SetupRetryRequest.Responses req = [] then
        (s, None, Some (status_Error InvalidArgument ''A list of responses must be specified.''))
      else
        let id = ''retry-test-'' @ Itoa (sint now)
        in (s\<lparr>retryStore := (retryStore s)(id \<mapsto> SetupRetryRequest.Responses req)\<rparr>,
            Some \<lparr>Id = id\<rparr>, None))"

definition Retry ::
  "ShowcaseServer \<Rightarrow> RetryId \<Rightarrow> ShowcaseServer \<times> Empty option \<times> rpc_error option"
where
  "Retry s req =
     (if Id req = [] then
        (s, None, Some (status_Error InvalidArgument ''An Id must be specified.''))
      else
        case retryStore s (Id req) of
          None \<Rightarrow>
            (s, None,
             Some (status_Error NotFound (''Retry with Id: '' @ Id req @ '' was not found.'')))
        | Some [] \<Rightarrow> (s, None, Some RuntimePanic)
        | Some (resp # resps) \<Rightarrow>
            if Code resp = OK then
              (s\<lparr>retryStore := (retryStore s)(Id req := None)\<rparr>, Some Empty, None)
            else
              ((if resps = [] then s\<lparr>retryStore := (retryStore s)(Id req := None)\<rparr>
                else s\<lparr>retryStore := (retryStore s)(Id req \<mapsto> resps)\<rparr>),
               None, ErrorProto (Some resp)))"

text \<open>The outcomes still queued under an id: none when the id is not in the table.\<close>

definition queue :: "ShowcaseServer \<Rightarrow> string \<Rightarrow> Status list" where
  "queue s rid = (case retryStore s rid of None \<Rightarrow> [] | Some q \<Rightarrow> q)"

text \<open>
  A client that calls \<open>Retry\<close> with the same id a number of times, one call after the
  other: the state after the last call and the results of the calls, in order.
\<close>

fun Retry_calls ::
  "nat \<Rightarrow> ShowcaseServer \<Rightarrow> RetryId \<Rightarrow>
     ShowcaseServer \<times> (Empty option \<times> rpc_error option) list"
where
  "Retry_calls 0 s req = (s, [])"
| "Retry_calls (Suc n) s req =
     (case Retry s req of
        (s', r) \<Rightarrow> (case Retry_calls n s' req of (s'', rs) \<Rightarrow> (s'', r # rs)))"

text \<open>The states of the retry table that calls of \<open>SetupRetry\<close> and \<open>Retry\<close> lead to.\<close>

inductive reachable :: "ShowcaseServer \<Rightarrow> bool" where
  reach_new: "reachable NewShowcaseServer"
| reach_setup: "reachable s \<Longrightarrow> reachable (fst (SetupRetry s now req))"
| reach_retry: "reachable s \<Longrightarrow> reachable (fst (Retry s req))"

text \<open>The invariant of the retry table: no id is bound to an empty queue.\<close>

definition queues_nonempty :: "ShowcaseServer \<Rightarrow> bool" where
  "queues_nonempty s = (\<forall>rid q. retryStore s rid = Some q \<longrightarrow> q \<noteq> [])"

section \<open>Pagination\<close>

record PaginationRequest =
  PageSize :: int32
  PageSizeOverride :: int32
  PageToken :: string
  MaxResponse :: int32

record PaginationResponse =
  Responses :: "int32 list"
  NextPageToken :: string

text \<open>
  The start of the window (lines 219 to 227 of the source): \<open>None\<close> when the handler
  returns the invalid-token error. \<open>int32(token)\<close> keeps the low 32 bits of the \<open>int\<close>
  that \<open>Atoi\<close> returned, and the range check is made on the converted value.
\<close>

definition Pagination_start :: "PaginationRequest \<Rightarrow> int32 option" where
  "Pagination_start req =
     (if PageToken req = [] then Some 0
      else
        case Atoi (PageToken req) of
          None \<Rightarrow> None
        | Some token \<Rightarrow>
            let token32 = (word_of_int token :: int32)
            in if sint token32 < 0 \<or> sint (MaxResponse req) < sint token32 then None
               else Some token32)"

text \<open>
  The loop \<open>for i := start; i < end; i++ { page = append(page, i) }\<close>. It ends: while
  \<open>i < end\<close> holds, \<open>i + 1\<close> does not wrap around.
\<close>

function page_loop :: "int32 \<Rightarrow> int32 \<Rightarrow> int32 list \<Rightarrow> int32 list" where
  "page_loop i e page = (if sint i < sint e then page_loop (i + 1) e (page @ [i]) else page)"
  by pat_completeness auto
termination
proof (relation "measure (\<lambda>(i, e, page). nat (sint e - sint i))")
  show "wf (measure (\<lambda>(i, e, page). nat (sint e - sint i)))"
    by simp
next
  fix i e :: int32 and page :: "int32 list"
  assume less: "sint i < sint e"
  have "sint e < 2 ^ (LENGTH(32) - 1)"
    by (rule sint_lt)
  with less have "sint i + 1 < 2 ^ (LENGTH(32) - 1)"
    by simp
  moreover have "- (2 ^ (LENGTH(32) - 1)) \<le> sint i"
    by (rule sint_ge)
  ultimately have "signed_take_bit (LENGTH(32) - 1) (sint i + 1) = sint i + 1"
    by (intro signed_take_bit_int_eq_self) simp_all
  then have "sint (i + 1) = sint i + 1"
    by (simp add: sint_word_ariths)
  with less show "((i + 1, e, page @ [i]), (i, e, page)) \<in>
      measure (\<lambda>(i, e, page). nat (sint e - sint i))"
    by simp
qed

declare page_loop.simps [simp del]

definition Pagination ::
  "PaginationRequest \<Rightarrow> PaginationResponse option \<times> rpc_error option"
where
  "Pagination req =
     (if sint (PageSize req) < 0 \<or> sint (PageSizeOverride req) < 0 then
        (None,
         Some (status_Error InvalidArgument ''The page size provided must not be negative.''))
      else if sint (MaxResponse req) \<le> 0 then
        (None,
         Some (status_Error InvalidArgument ''The maximum response provided must be positive.''))
      else
        case Pagination_start req of
          None \<Rightarrow>
            (None,
             Some (status_Error InvalidArgument
                     (''Invalid page token: '' @ PageToken req @
                      ''. Token must be within the range [0, request.MaxResponse]'')))
        | Some start \<Rightarrow>
            let actualSize =
                  (if 0 < sint (PageSizeOverride req) then PageSizeOverride req
                   else PageSize req);
                end0 = start + actualSize;
                end1 = (if actualSize = 0 then MaxResponse req else end0);
                end2 = (if sint (MaxResponse req) < sint end1 then MaxResponse req else end1);
                nextToken = (if sint end2 < sint (MaxResponse req) then Itoa (sint end2) else [])
            in (Some \<lparr>Responses = page_loop start end2 [], NextPageToken = nextToken\<rparr>, None))"

text \<open>
  The window as the specification words it, on unbounded integers: the effective size is
  the override when it is positive and the page size otherwise, an effective size of 0
  stands for \<open>maxResponse\<close>, and the window ends at
  \<open>min (start + effective size) maxResponse\<close>.
\<close>

definition effective_size :: "PaginationRequest \<Rightarrow> int" where
  "effective_size req =
     (if 0 < sint (PageSizeOverride req) then sint (PageSizeOverride req)
      else sint (PageSize req))"

definition window_end :: "PaginationRequest \<Rightarrow> int \<Rightarrow> int" where
  "window_end req start =
     min (start + (if effective_size req = 0 then sint (MaxResponse req) else effective_size req))
       (sint (MaxResponse req))"

text \<open>
  The client of the claims on paging: it calls \<open>Pagination\<close> with the empty token, then
  with each token the server returned, until the returned token is empty or a call fails.
  It gives the pages received and the error of the failed call, if any; \<open>None\<close> when the
  fuel (the number of calls allowed) runs out first.
\<close>

fun client_pages ::
  "nat \<Rightarrow> int32 \<Rightarrow> int32 \<Rightarrow> int32 \<Rightarrow> string \<Rightarrow> (int32 list list \<times> rpc_error option) option"
where
  "client_pages 0 pageSize override maxResponse token = None"
| "client_pages (Suc fuel) pageSize override maxResponse token =
     (case Pagination \<lparr>PageSize = pageSize, PageSizeOverride = override, PageToken = token,
                        MaxResponse = maxResponse\<rparr> of
        (None, err) \<Rightarrow> Some ([], err)
      | (Some resp, err) \<Rightarrow>
          if NextPageToken resp = [] then Some ([PaginationResponse.Responses resp], None)
          else
            case client_pages fuel pageSize override maxResponse (NextPageToken resp) of
              None \<Rightarrow> None
            | Some (pages, e) \<Rightarrow> Some (PaginationResponse.Responses resp # pages, e))"

section \<open>The streaming echo protocols\<close>

subsection \<open>strings: \<open>Fields\<close> and \<open>Join\<close>\<close>

text \<open>
  \<open>strings.Fields\<close> splits a string around each run of white space, as \<open>unicode.IsSpace\<close>
  defines it: the code points of the table below. In the string's bytes a white-space
  rune is its UTF-8 encoding.
\<close>

definition white_space :: "nat list" where
  "white_space =
     [0x09, 0x0A, 0x0B, 0x0C, 0x0D, 0x20, 0x85, 0xA0, 0x1680,
      0x2000, 0x2001, 0x2002, 0x2003, 0x2004, 0x2005, 0x2006, 0x2007, 0x2008, 0x2009, 0x200A,
      0x2028, 0x2029, 0x202F, 0x205F, 0x3000]"

definition utf8 :: "nat \<Rightarrow> nat list" where
  "utf8 cp =
     (if cp < 0x80 then [cp]
      else if cp < 0x800 then [0xC0 + cp div 64, 0x80 + cp mod 64]
      else [0xE0 + cp div 4096, 0x80 + (cp div 64) mod 64, 0x80 + cp mod 64])"

text \<open>
  The number of bytes of the white-space rune a string starts with, 0 when it starts with
  none.
\<close>

definition space_width :: "string \<Rightarrow> nat" where
  "space_width s =
     (case find (\<lambda>enc. take (length enc) (map of_char s) = enc) (map utf8 white_space) of
        None \<Rightarrow> 0
      | Some enc \<Rightarrow> length enc)"

text \<open>
  The scan of \<open>Fields\<close>, with the field being read in \<open>cur\<close> (empty when the scan is
  between fields). A byte that starts no white-space rune is a byte of a rune that is not
  white space: the later bytes of a rune of several bytes are continuation bytes
  (\<open>0x80\<close> to \<open>0xBF\<close>), and no encoding of the table starts with one. So the scan adds the
  byte to the field.
\<close>

function Fields_from :: "string \<Rightarrow> string \<Rightarrow> string list" where
  "Fields_from cur [] = (if cur = [] then [] else [cur])"
| "Fields_from cur (c # cs) =
     (if space_width (c # cs) = 0 then Fields_from (cur @ [c]) cs
      else (if cur = [] then [] else [cur]) @ Fields_from [] (drop (space_width (c # cs)) (c # cs)))"
  by pat_completeness auto
termination
  by (relation "measure (\<lambda>(cur, s). length s)") auto

definition Fields :: "string \<Rightarrow> string list" where
  "Fields s = Fields_from [] s"

text \<open>\<open>strings.Join(elems, sep)\<close>.\<close>

fun Join :: "string list \<Rightarrow> string \<Rightarrow> string" where
  "Join [] sep = []"
| "Join [a] sep = a"
| "Join (a # b # bs) sep = a @ sep @ Join (b # bs) sep"

subsection \<open>Messages and streams\<close>

record EchoResponse =
  Content :: string

record ExpandRequest =
  Content :: string
  Error :: "Status option"

record EchoRequest =
  Content :: string
  Error :: "Status option"

text \<open>
  The sending side of a stream: given the messages already sent, what \<open>Send\<close> returns for
  the next one (\<open>None\<close> for \<open>nil\<close>).
\<close>

type_synonym send_stream = "EchoResponse list \<Rightarrow> EchoResponse \<Rightarrow> rpc_error option"

text \<open>
  What \<open>Recv\<close> returns, call after call: a request or an error of the transport; after the
  last event of the list it returns \<open>io.EOF\<close>.
\<close>

datatype recv_event = Msg EchoRequest | RecvErr rpc_error

subsection \<open>Expand\<close>

text \<open>A run of \<open>Expand\<close> gives the messages sent, in order, and the error returned.\<close>

fun Expand_loop ::
  "send_stream \<Rightarrow> string list \<Rightarrow> EchoResponse list \<Rightarrow> EchoResponse list \<times> rpc_error option"
where
  "Expand_loop send [] sent = (sent, None)"
| "Expand_loop send (word # ws) sent =
     (case send sent \<lparr>EchoResponse.Content = word\<rparr> of
        Some err \<Rightarrow> (sent, Some err)
      | None \<Rightarrow> Expand_loop send ws (sent @ [\<lparr>EchoResponse.Content = word\<rparr>]))"

definition Expand :: "ExpandRequest \<Rightarrow> send_stream \<Rightarrow> EchoResponse list \<times> rpc_error option" where
  "Expand req send =
     (case Expand_loop send (Fields (ExpandRequest.Content req)) [] of
        (sent, Some err) \<Rightarrow> (sent, Some err)
      | (sent, None) \<Rightarrow>
          if ExpandRequest.Error req \<noteq> None then (sent, ErrorProto (ExpandRequest.Error req))
          else (sent, None))"

subsection \<open>Collect\<close>

text \<open>
  A run of \<open>Collect\<close> gives the response handed to \<open>SendAndClose\<close> (if the run got there),
  the error returned, and the events of the stream it did not read. \<open>close\<close> is what
  \<open>SendAndClose\<close> returns for a response.
\<close>

fun Collect_loop ::
  "(EchoResponse \<Rightarrow> rpc_error option) \<Rightarrow> recv_event list \<Rightarrow> string list \<Rightarrow>
     EchoResponse option \<times> rpc_error option \<times> recv_event list"
where
  "Collect_loop close [] resp =
     (Some \<lparr>EchoResponse.Content = Join resp '' ''\<rparr>,
      close \<lparr>EchoResponse.Content = Join resp '' ''\<rparr>, [])"
| "Collect_loop close (RecvErr err # rest) resp = (None, Some err, rest)"
| "Collect_loop close (Msg req # rest) resp =
     (case ErrorProto (EchoRequest.Error req) of
        Some s \<Rightarrow> (None, Some s, rest)
      | None \<Rightarrow>
          Collect_loop close rest
            (if EchoRequest.Content req \<noteq> [] then resp @ [EchoRequest.Content req] else resp))"

definition Collect ::
  "(EchoResponse \<Rightarrow> rpc_error option) \<Rightarrow> recv_event list \<Rightarrow>
     EchoResponse option \<times> rpc_error option \<times> recv_event list"
where
  "Collect close stream = Collect_loop close stream []"

section \<open>Timeout\<close>

text \<open>
  \<open>ptypes.Duration\<close> turns a \<open>durpb.Duration\<close> into a \<open>time.Duration\<close>, a number of
  nanoseconds in an \<open>int64\<close>. It returns 0 and an error when the message is \<open>nil\<close>, when
  the seconds or the nanoseconds are out of range or differ in sign, and when the result
  does not fit. The model gives the pair of the duration and whether the error is set.
\<close>

record Duration_pb =
  Seconds :: int64
  Nanos :: int32

definition maxSeconds :: int where
  "maxSeconds = 315576000000"

definition validateDuration :: "Duration_pb option \<Rightarrow> bool" where
  "validateDuration p =
     (case p of
        None \<Rightarrow> False
      | Some d \<Rightarrow>
          if sint (Seconds d) < - maxSeconds \<or> maxSeconds < sint (Seconds d) then False
          else if sint (Nanos d) \<le> - 1000000000 \<or> 1000000000 \<le> sint (Nanos d) then False
          else if (sint (Seconds d) < 0 \<and> 0 < sint (Nanos d)) \<or>
                  (0 < sint (Seconds d) \<and> sint (Nanos d) < 0) then False
          else True)"

text \<open>Go's \<open>/\<close> on integers truncates towards zero.\<close>

definition trunc_div :: "int \<Rightarrow> int \<Rightarrow> int" where
  "trunc_div a b = (if (a < 0) = (b < 0) then \<bar>a\<bar> div \<bar>b\<bar> else - (\<bar>a\<bar> div \<bar>b\<bar>))"

definition ptypes_Duration :: "Duration_pb option \<Rightarrow> int64 \<times> bool" where
  "ptypes_Duration p =
     (if \<not> validateDuration p then (0, True)
      else
        case p of
          None \<Rightarrow> (0, True)
        | Some pd \<Rightarrow>
            let d = Seconds pd * 1000000000
            in if trunc_div (sint d) 1000000000 \<noteq> sint (Seconds pd) then (0, True)
               else if Nanos pd \<noteq> 0 then
                 (let d' = d + word_of_int (sint (Nanos pd))
                  in if (sint d' < 0) \<noteq> (sint (Nanos pd) < 0) then (0, True) else (d', False))
               else (d, False))"

record TimeoutResponse =
  Content :: string

record TimeoutRequest =
  ResponseDelay :: "Duration_pb option"
  Error :: "Status option"
  Success :: "TimeoutResponse option"

text \<open>
  A run of \<open>Timeout\<close> gives the duration handed to \<open>sleepF\<close>, then the response and the
  error returned.
\<close>

definition Timeout :: "TimeoutRequest \<Rightarrow> int64 \<times> TimeoutResponse option \<times> rpc_error option" where
  "Timeout req =
     (let d = fst (ptypes_Duration (ResponseDelay req))
      in (d,
          if TimeoutRequest.Error req \<noteq> None then (None, ErrorProto (TimeoutRequest.Error req))
          else (Success req, None)))"

section \<open>Decimal numbers: \<open>Atoi\<close> reads what \<open>Itoa\<close> prints\<close>

lemma digit_char_code: "d < 10 \<Longrightarrow> (of_char (digit_char d) :: nat) = 48 + d"
proof -
  assume "d < 10"
  then consider "d = 0" | "d = 1" | "d = 2" | "d = 3" | "d = 4" | "d = 5" | "d = 6" | "d = 7"
    | "d = 8" | "d = 9"
    by atomize_elim arith
  then show ?thesis
    by cases (simp_all add: digit_char_def)
qed

lemma is_digit_digit_char: "d < 10 \<Longrightarrow> is_digit (digit_char d)"
  by (simp add: is_digit_def digit_char_code)

lemma digit_val_digit_char: "d < 10 \<Longrightarrow> digit_val (digit_char d) = d"
  by (simp add: digit_val_def digit_char_code)

lemma parse_digits_append:
  "parse_digits m (xs @ ys) =
     (case parse_digits m xs of None \<Rightarrow> None | Some k \<Rightarrow> parse_digits k ys)"
  by (induction xs arbitrary: m) simp_all

lemma parse_digits_digits: "parse_digits 0 (digits n) = Some n"
proof (induction n rule: digits.induct)
  case (1 n)
  show ?case
  proof (cases "n < 10")
    case True
    then show ?thesis
      by (simp add: digits.simps [of n] is_digit_digit_char digit_val_digit_char)
  next
    case False
    with 1 have "parse_digits 0 (digits (n div 10)) = Some (n div 10)"
      by simp
    with False show ?thesis
      by (simp add: digits.simps [of n] parse_digits_append is_digit_digit_char
          digit_val_digit_char)
  qed
qed

lemma digits_inj: "digits a = digits b \<Longrightarrow> a = b"
  by (metis parse_digits_digits option.inject)

lemma digits_all_digit: "c \<in> set (digits n) \<Longrightarrow> is_digit c"
proof (induction n rule: digits.induct)
  case (1 n)
  then show ?case
    by (cases "n < 10") (auto simp: digits.simps [of n] is_digit_digit_char)
qed

lemma digits_nonempty: "digits n \<noteq> []"
  by (subst digits.simps) simp

lemma minus_not_digit: "\<not> is_digit CHR ''-''"
  by (simp add: is_digit_def)

lemma digits_no_minus: "digits n \<noteq> CHR ''-'' # xs"
  using digits_all_digit [of "CHR ''-''" n] minus_not_digit by auto

lemma Itoa_inj: "Itoa a = Itoa b \<Longrightarrow> a = b"
  unfolding Itoa_def
  by (auto split: if_splits dest!: digits_inj simp: digits_no_minus digits_no_minus [symmetric])

lemma Itoa_sint_inj: "Itoa (sint (a :: int64)) = Itoa (sint b) \<Longrightarrow> a = b"
  by (auto dest!: Itoa_inj intro: signed_word_eqI)

section \<open>The retry sequencer: what is proved\<close>

lemma Retry_step:
  assumes "Id req \<noteq> []" and "retryStore t (Id req) = Some (r # rs)"
  shows "Retry t req =
           (t\<lparr>retryStore :=
                (if Code r = OK \<or> rs = [] then (retryStore t)(Id req := None)
                 else (retryStore t)(Id req \<mapsto> rs))\<rparr>,
            if Code r = OK then Some Empty else None,
            if Code r = OK then None else Some (StatusErr r))"
  using assms by (simp add: Retry_def ErrorProto_def)

lemma Retry_missing:
  assumes "Id req \<noteq> []" and "retryStore t (Id req) = None"
  shows "Retry t req =
           (t, None,
            Some (status_Error NotFound (''Retry with Id: '' @ Id req @ '' was not found.'')))"
  using assms by (simp add: Retry_def)

lemma Retry_calls_errors:
  assumes "Id req \<noteq> []"
    and "retryStore s (Id req) = Some (errs @ rest)"
    and "\<forall>e \<in> set errs. Code e \<noteq> OK"
    and "errs @ rest \<noteq> []"
  shows "Retry_calls (length errs) s req =
           (s\<lparr>retryStore :=
                (if rest = [] then (retryStore s)(Id req := None)
                 else (retryStore s)(Id req \<mapsto> rest))\<rparr>,
            map (\<lambda>e. (None, Some (StatusErr e))) errs)"
  using assms(2,3,4)
proof (induction errs arbitrary: s)
  case Nil
  then show ?case
    by (simp add: fun_upd_idem)
next
  case (Cons e es)
  define s1 where
    "s1 = s\<lparr>retryStore :=
              (if es @ rest = [] then (retryStore s)(Id req := None)
               else (retryStore s)(Id req \<mapsto> es @ rest))\<rparr>"
  have step: "Retry s req = (s1, None, Some (StatusErr e))"
    using Cons.prems assms(1) Retry_step [of req s e "es @ rest"] by (simp add: s1_def)
  show ?case
  proof (cases "es @ rest = []")
    case True
    with step show ?thesis
      by (simp add: s1_def fun_upd_def)
  next
    case False
    then have "retryStore s1 (Id req) = Some (es @ rest)"
      by (simp add: s1_def)
    from Cons.IH [OF this] Cons.prems False
    have "Retry_calls (length es) s1 req =
        (s1\<lparr>retryStore :=
              (if rest = [] then (retryStore s1)(Id req := None)
               else (retryStore s1)(Id req \<mapsto> rest))\<rparr>,
         map (\<lambda>e. (None, Some (StatusErr e))) es)"
      by simp
    with step False show ?thesis
      by (simp add: s1_def)
  qed
qed

text \<open>
  Claim C1. After \<open>SetupRetry\<close> with the outcomes error, error, OK, three calls of \<open>Retry\<close>
  on the returned id fail with the first error, fail with the second error and succeed,
  and a fourth call fails with \<open>NotFound\<close>. In general a call of \<open>Retry\<close> on an id with
  a queue takes the head of the queue and answers with it (its error, or success when it
  is OK); the tail stays queued in its order, unless the head was OK or the tail is
  empty, in which case the entry is removed. So as many calls as there are errors at the
  front of a queue return these errors, one each, in the order of the queue, and leave
  the outcomes behind them queued.
\<close>

theorem C1_retry_consumes_in_order:
  "(Code e1 \<noteq> OK \<and> Code e2 \<noteq> OK \<and> Code ok = OK \<longrightarrow>
      (\<exists>rid s0 s1 s2 s3.
         SetupRetry s now \<lparr>SetupRetryRequest.Responses = [e1, e2, ok]\<rparr> = (s0, Some rid, None) \<and>
         Retry s0 rid = (s1, None, Some (StatusErr e1)) \<and>
         Retry s1 rid = (s2, None, Some (StatusErr e2)) \<and>
         Retry s2 rid = (s3, Some Empty, None) \<and>
         Retry s3 rid =
           (s3, None,
            Some (status_Error NotFound
                    (''Retry with Id: '' @ Id rid @ '' was not found.''))))) \<and>
   (Id req \<noteq> [] \<and> retryStore t (Id req) = Some (r # rs) \<longrightarrow>
      Retry t req =
        (t\<lparr>retryStore :=
             (if Code r = OK \<or> rs = [] then (retryStore t)(Id req := None)
              else (retryStore t)(Id req \<mapsto> rs))\<rparr>,
         if Code r = OK then Some Empty else None,
         if Code r = OK then None else Some (StatusErr r))) \<and>
   (Id req \<noteq> [] \<and> retryStore t (Id req) = Some (errs @ rest) \<and> errs @ rest \<noteq> [] \<and>
    (\<forall>e \<in> set errs. Code e \<noteq> OK) \<longrightarrow>
      Retry_calls (length errs) t req =
        (t\<lparr>retryStore :=
             (if rest = [] then (retryStore t)(Id req := None)
              else (retryStore t)(Id req \<mapsto> rest))\<rparr>,
         map (\<lambda>e. (None, Some (StatusErr e))) errs))"
proof (intro conjI impI)
  assume codes: "Code e1 \<noteq> OK \<and> Code e2 \<noteq> OK \<and> Code ok = OK"
  define k where "k = ''retry-test-'' @ Itoa (sint now)"
  define s0 where "s0 = s\<lparr>retryStore := (retryStore s)(k \<mapsto> [e1, e2, ok])\<rparr>"
  define s1 where "s1 = s0\<lparr>retryStore := (retryStore s0)(k \<mapsto> [e2, ok])\<rparr>"
  define s2 where "s2 = s1\<lparr>retryStore := (retryStore s1)(k \<mapsto> [ok])\<rparr>"
  define s3 where "s3 = s2\<lparr>retryStore := (retryStore s2)(k := None)\<rparr>"
  have k: "k \<noteq> []"
    by (simp add: k_def)
  have "SetupRetry s now \<lparr>SetupRetryRequest.Responses = [e1, e2, ok]\<rparr> =
      (s0, Some \<lparr>Id = k\<rparr>, None)"
    by (simp add: SetupRetry_def s0_def k_def Let_def)
  moreover have "Retry s0 \<lparr>Id = k\<rparr> = (s1, None, Some (StatusErr e1))"
    using codes k by (simp add: Retry_step [where r = e1 and rs = "[e2, ok]"] s0_def s1_def)
  moreover have "Retry s1 \<lparr>Id = k\<rparr> = (s2, None, Some (StatusErr e2))"
    using codes k by (simp add: Retry_step [where r = e2 and rs = "[ok]"] s1_def s2_def)
  moreover have "Retry s2 \<lparr>Id = k\<rparr> = (s3, Some Empty, None)"
    using codes k by (simp add: Retry_step [where r = ok and rs = "[]"] s2_def s3_def)
  moreover have "Retry s3 \<lparr>Id = k\<rparr> =
      (s3, None, Some (status_Error NotFound (''Retry with Id: '' @ k @ '' was not found.'')))"
    using k by (simp add: Retry_missing s3_def)
  ultimately show "\<exists>rid s0 s1 s2 s3.
      SetupRetry s now \<lparr>SetupRetryRequest.Responses = [e1, e2, ok]\<rparr> = (s0, Some rid, None) \<and>
      Retry s0 rid = (s1, None, Some (StatusErr e1)) \<and>
      Retry s1 rid = (s2, None, Some (StatusErr e2)) \<and>
      Retry s2 rid = (s3, Some Empty, None) \<and>
      Retry s3 rid =
        (s3, None,
         Some (status_Error NotFound (''Retry with Id: '' @ Id rid @ '' was not found.'')))"
    by (intro exI [of _ "\<lparr>Id = k\<rparr>"] exI [of _ s0] exI [of _ s1] exI [of _ s2] exI [of _ s3])
      simp
next
  assume "Id req \<noteq> [] \<and> retryStore t (Id req) = Some (r # rs)"
  then show "Retry t req =
      (t\<lparr>retryStore :=
           (if Code r = OK \<or> rs = [] then (retryStore t)(Id req := None)
            else (retryStore t)(Id req \<mapsto> rs))\<rparr>,
       if Code r = OK then Some Empty else None,
       if Code r = OK then None else Some (StatusErr r))"
    by (simp add: Retry_step)
next
  assume "Id req \<noteq> [] \<and> retryStore t (Id req) = Some (errs @ rest) \<and> errs @ rest \<noteq> [] \<and>
    (\<forall>e \<in> set errs. Code e \<noteq> OK)"
  then show "Retry_calls (length errs) t req =
      (t\<lparr>retryStore :=
             (if rest = [] then (retryStore t)(Id req := None)
              else (retryStore t)(Id req \<mapsto> rest))\<rparr>,
       map (\<lambda>e. (None, Some (StatusErr e))) errs)"
    by (intro Retry_calls_errors) simp_all
qed

text \<open>
  The theorem of C1 at concrete outcomes: the three parts at the queue \<open>unavailable\<close>,
  \<open>deadline\<close>, OK.
\<close>

theorem C1_retry_consumes_in_order_witness:
  "Code \<lparr>Code = 14, Message = ''unavailable'', Details = []\<rparr> \<noteq> OK \<and>
   Code \<lparr>Code = 4, Message = ''deadline'', Details = []\<rparr> \<noteq> OK \<and>
   Code \<lparr>Code = 0, Message = [], Details = []\<rparr> = OK \<and>
   (\<exists>rid s0 s1 s2 s3.
      SetupRetry NewShowcaseServer 0
        \<lparr>SetupRetryRequest.Responses =
           [\<lparr>Code = 14, Message = ''unavailable'', Details = []\<rparr>,
            \<lparr>Code = 4, Message = ''deadline'', Details = []\<rparr>,
            \<lparr>Code = 0, Message = [], Details = []\<rparr>]\<rparr> = (s0, Some rid, None) \<and>
      Retry s0 rid =
        (s1, None, Some (StatusErr \<lparr>Code = 14, Message = ''unavailable'', Details = []\<rparr>)) \<and>
      Retry s1 rid =
        (s2, None, Some (StatusErr \<lparr>Code = 4, Message = ''deadline'', Details = []\<rparr>)) \<and>
      Retry s2 rid = (s3, Some Empty, None) \<and>
      Retry s3 rid =
        (s3, None,
         Some (status_Error NotFound (''Retry with Id: '' @ Id rid @ '' was not found.'')))) \<and>
   Id \<lparr>Id = ''r''\<rparr> \<noteq> [] \<and>
   retryStore
     \<lparr>retryStore = [''r'' \<mapsto> [\<lparr>Code = 14, Message = ''unavailable'', Details = []\<rparr>,
                                \<lparr>Code = 4, Message = ''deadline'', Details = []\<rparr>,
                                \<lparr>Code = 0, Message = [], Details = []\<rparr>]]\<rparr>
     (Id \<lparr>Id = ''r''\<rparr>) =
     Some [\<lparr>Code = 14, Message = ''unavailable'', Details = []\<rparr>,
           \<lparr>Code = 4, Message = ''deadline'', Details = []\<rparr>,
           \<lparr>Code = 0, Message = [], Details = []\<rparr>] \<and>
   Retry
     \<lparr>retryStore = [''r'' \<mapsto> [\<lparr>Code = 14, Message = ''unavailable'', Details = []\<rparr>,
                                \<lparr>Code = 4, Message = ''deadline'', Details = []\<rparr>,
                                \<lparr>Code = 0, Message = [], Details = []\<rparr>]]\<rparr> \<lparr>Id = ''r''\<rparr> =
     (\<lparr>retryStore = [''r'' \<mapsto> [\<lparr>Code = 4, Message = ''deadline'', Details = []\<rparr>,
                                 \<lparr>Code = 0, Message = [], Details = []\<rparr>]]\<rparr>, None,
      Some (StatusErr \<lparr>Code = 14, Message = ''unavailable'', Details = []\<rparr>)) \<and>
   Retry_calls 2
     \<lparr>retryStore = [''r'' \<mapsto> [\<lparr>Code = 14, Message = ''unavailable'', Details = []\<rparr>,
                                \<lparr>Code = 4, Message = ''deadline'', Details = []\<rparr>,
                                \<lparr>Code = 0, Message = [], Details = []\<rparr>]]\<rparr> \<lparr>Id = ''r''\<rparr> =
     (\<lparr>retryStore = [''r'' \<mapsto> [\<lparr>Code = 0, Message = [], Details = []\<rparr>]]\<rparr>,
      [(None, Some (StatusErr \<lparr>Code = 14, Message = ''unavailable'', Details = []\<rparr>)),
       (None, Some (StatusErr \<lparr>Code = 4, Message = ''deadline'', Details = []\<rparr>))])"
proof -
  let ?e1 = "\<lparr>Code = 14, Message = ''unavailable'', Details = []\<rparr>"
  let ?e2 = "\<lparr>Code = 4, Message = ''deadline'', Details = []\<rparr>"
  let ?ok = "\<lparr>Code = 0, Message = [], Details = []\<rparr>"
  let ?t = "\<lparr>retryStore = [''r'' \<mapsto> [?e1, ?e2, ?ok]]\<rparr>"
  let ?req = "\<lparr>Id = ''r''\<rparr>"
  have codes: "Code ?e1 \<noteq> OK \<and> Code ?e2 \<noteq> OK \<and> Code ?ok = OK"
    by (simp add: OK_def)
  have pre: "Id ?req \<noteq> [] \<and> retryStore ?t (Id ?req) = Some (?e1 # [?e2, ?ok])"
    by simp
  have run: "Id ?req \<noteq> [] \<and> retryStore ?t (Id ?req) = Some ([?e1, ?e2] @ [?ok]) \<and>
      [?e1, ?e2] @ [?ok] \<noteq> [] \<and> (\<forall>e \<in> set [?e1, ?e2]. Code e \<noteq> OK)"
    by (simp add: OK_def)
  note inst = C1_retry_consumes_in_order [of ?e1 ?e2 ?ok NewShowcaseServer 0 ?req ?t ?e1
      "[?e2, ?ok]" "[?e1, ?e2]" "[?ok]"]
  from inst codes have scenario: "\<exists>rid s0 s1 s2 s3.
      SetupRetry NewShowcaseServer 0 \<lparr>SetupRetryRequest.Responses = [?e1, ?e2, ?ok]\<rparr> =
        (s0, Some rid, None) \<and>
      Retry s0 rid = (s1, None, Some (StatusErr ?e1)) \<and>
      Retry s1 rid = (s2, None, Some (StatusErr ?e2)) \<and>
      Retry s2 rid = (s3, Some Empty, None) \<and>
      Retry s3 rid =
        (s3, None,
         Some (status_Error NotFound (''Retry with Id: '' @ Id rid @ '' was not found.'')))"
    by blast
  from inst pre have "Retry ?t ?req =
      (?t\<lparr>retryStore :=
            (if Code ?e1 = OK \<or> [?e2, ?ok] = [] then (retryStore ?t)(Id ?req := None)
             else (retryStore ?t)(Id ?req \<mapsto> [?e2, ?ok]))\<rparr>,
       if Code ?e1 = OK then Some Empty else None,
       if Code ?e1 = OK then None else Some (StatusErr ?e1))"
    by blast
  then have step: "Retry ?t ?req =
      (\<lparr>retryStore = [''r'' \<mapsto> [?e2, ?ok]]\<rparr>, None, Some (StatusErr ?e1))"
    by (simp add: OK_def)
  from inst run have "Retry_calls (length [?e1, ?e2]) ?t ?req =
      (?t\<lparr>retryStore :=
            (if [?ok] = [] then (retryStore ?t)(Id ?req := None)
             else (retryStore ?t)(Id ?req \<mapsto> [?ok]))\<rparr>,
       map (\<lambda>e. (None, Some (StatusErr e))) [?e1, ?e2])"
    by blast
  then have calls: "Retry_calls 2 ?t ?req =
      (\<lparr>retryStore = [''r'' \<mapsto> [?ok]]\<rparr>,
       [(None, Some (StatusErr ?e1)), (None, Some (StatusErr ?e2))])"
    by (simp add: numeral_2_eq_2)
  from codes scenario pre step calls show ?thesis
    by simp
qed

lemma queues_nonempty_SetupRetry:
  "queues_nonempty s \<Longrightarrow> queues_nonempty (fst (SetupRetry s now req))"
  by (auto simp: queues_nonempty_def SetupRetry_def Let_def)

lemma queues_nonempty_Retry:
  "queues_nonempty s \<Longrightarrow> queues_nonempty (fst (Retry s req))"
  by (auto simp: queues_nonempty_def Retry_def split: option.splits list.splits if_splits)

lemma reachable_queues_nonempty: "reachable s \<Longrightarrow> queues_nonempty s"
proof (induction rule: reachable.induct)
  case reach_new
  show ?case
    by (simp add: queues_nonempty_def NewShowcaseServer_def)
next
  case (reach_setup s now req)
  then show ?case
    by (simp add: queues_nonempty_SetupRetry)
next
  case (reach_retry s req)
  then show ?case
    by (simp add: queues_nonempty_Retry)
qed

lemma Retry_no_panic: "queues_nonempty s \<Longrightarrow> snd (snd (Retry s req)) \<noteq> Some RuntimePanic"
  by (auto simp: queues_nonempty_def Retry_def status_Error_def ErrorProto_def
      split: option.splits list.splits)

text \<open>
  Claim C5. In every state reached by calls of \<open>SetupRetry\<close> and \<open>Retry\<close>, an id is in the
  retry table exactly when its queue holds an outcome; so \<open>Retry\<close> never indexes an empty
  queue. \<open>SetupRetry\<close> stores only non-empty lists, and \<open>Retry\<close> removes the entry exactly
  when the outcome it takes is OK or is the last one, and keeps the tail otherwise.
\<close>

theorem C5_entry_iff_unconsumed:
  assumes "reachable s"
  shows "(rid \<in> dom (retryStore s) \<longleftrightarrow> queue s rid \<noteq> []) \<and>
         snd (snd (Retry s req)) \<noteq> Some RuntimePanic \<and>
         (\<forall>q. retryStore (fst (SetupRetry s now sreq)) rid = Some q \<longrightarrow> q \<noteq> []) \<and>
         (\<forall>r rs. Id req \<noteq> [] \<and> retryStore s (Id req) = Some (r # rs) \<longrightarrow>
            (retryStore (fst (Retry s req)) (Id req) = None \<longleftrightarrow> Code r = OK \<or> rs = []) \<and>
            (Code r \<noteq> OK \<and> rs \<noteq> [] \<longrightarrow> retryStore (fst (Retry s req)) (Id req) = Some rs))"
proof -
  have inv: "queues_nonempty s"
    using assms by (rule reachable_queues_nonempty)
  have "rid \<in> dom (retryStore s) \<longleftrightarrow> queue s rid \<noteq> []"
    using inv by (auto simp: queues_nonempty_def queue_def split: option.splits)
  moreover have "snd (snd (Retry s req)) \<noteq> Some RuntimePanic"
    using inv by (rule Retry_no_panic)
  moreover have "\<forall>q. retryStore (fst (SetupRetry s now sreq)) rid = Some q \<longrightarrow> q \<noteq> []"
    using queues_nonempty_SetupRetry [OF inv, of now sreq] by (simp add: queues_nonempty_def)
  moreover have "\<forall>r rs. Id req \<noteq> [] \<and> retryStore s (Id req) = Some (r # rs) \<longrightarrow>
      (retryStore (fst (Retry s req)) (Id req) = None \<longleftrightarrow> Code r = OK \<or> rs = []) \<and>
      (Code r \<noteq> OK \<and> rs \<noteq> [] \<longrightarrow> retryStore (fst (Retry s req)) (Id req) = Some rs)"
    by (simp add: Retry_step)
  ultimately show ?thesis
    by blast
qed


text \<open>The theorem of C5 at the state after one \<open>SetupRetry\<close>.\<close>

theorem C5_entry_iff_unconsumed_witness:
  "reachable (fst (SetupRetry NewShowcaseServer 0
      \<lparr>SetupRetryRequest.Responses = [\<lparr>Code = 14, Message = ''unavailable'', Details = []\<rparr>]\<rparr>)) \<and>
   ''retry-test-0'' \<in> dom (retryStore (fst (SetupRetry NewShowcaseServer 0
      \<lparr>SetupRetryRequest.Responses = [\<lparr>Code = 14, Message = ''unavailable'', Details = []\<rparr>]\<rparr>))) \<and>
   queue (fst (SetupRetry NewShowcaseServer 0
      \<lparr>SetupRetryRequest.Responses = [\<lparr>Code = 14, Message = ''unavailable'', Details = []\<rparr>]\<rparr>)) ''retry-test-0'' =
     [\<lparr>Code = 14, Message = ''unavailable'', Details = []\<rparr>] \<and>
   ''retry-test-1'' \<notin> dom (retryStore (fst (SetupRetry NewShowcaseServer 0
      \<lparr>SetupRetryRequest.Responses = [\<lparr>Code = 14, Message = ''unavailable'', Details = []\<rparr>]\<rparr>))) \<and>
   queue (fst (SetupRetry NewShowcaseServer 0
      \<lparr>SetupRetryRequest.Responses = [\<lparr>Code = 14, Message = ''unavailable'', Details = []\<rparr>]\<rparr>)) ''retry-test-1'' = [] \<and>
   retryStore (fst (Retry (fst (SetupRetry NewShowcaseServer 0
      \<lparr>SetupRetryRequest.Responses = [\<lparr>Code = 14, Message = ''unavailable'', Details = []\<rparr>]\<rparr>))
      \<lparr>Id = ''retry-test-0''\<rparr>)) ''retry-test-0'' = None"
proof -
  let ?e = "\<lparr>Code = 14, Message = ''unavailable'', Details = []\<rparr>"
  let ?s = "fst (SetupRetry NewShowcaseServer 0 \<lparr>SetupRetryRequest.Responses = [?e]\<rparr>)"
  have r: "reachable ?s"
    by (intro reach_setup reach_new)
  have st: "retryStore ?s = [''retry-test-0'' \<mapsto> [?e]]"
    by (simp add: SetupRetry_def NewShowcaseServer_def Let_def Itoa_def digits.simps
        digit_char_def)
  have pre: "Id \<lparr>Id = ''retry-test-0''\<rparr> \<noteq> [] \<and>
      retryStore ?s (Id \<lparr>Id = ''retry-test-0''\<rparr>) = Some [?e]"
    by (simp add: st)
  note a = C5_entry_iff_unconsumed [OF r, of "''retry-test-0''" "\<lparr>Id = ''retry-test-0''\<rparr>"]
  note b = C5_entry_iff_unconsumed [OF r, of "''retry-test-1''" "\<lparr>Id = ''retry-test-0''\<rparr>"]
  from a pre have "retryStore (fst (Retry ?s \<lparr>Id = ''retry-test-0''\<rparr>)) ''retry-test-0'' = None"
    by auto
  moreover from a have "queue ?s ''retry-test-0'' = [?e]"
    by (simp add: queue_def st)
  moreover from b have "queue ?s ''retry-test-1'' = []"
    by (simp add: queue_def st)
  ultimately show ?thesis
    using r by (simp add: st)
qed

text \<open>
  Claim C6, amended. A successful \<open>SetupRetry\<close> returns the id \<open>retry-test-\<close> followed by
  the Unix time of the clock in seconds, stores the list it was given under that id and
  leaves every other entry as it was; the id differs from the id of every successful
  \<open>SetupRetry\<close> whose clock read another second.
\<close>

theorem C6_setup_retry_stores_verbatim:
  assumes "SetupRetryRequest.Responses req \<noteq> []"
  shows "SetupRetry s now req =
           (s\<lparr>retryStore :=
                (retryStore s)(''retry-test-'' @ Itoa (sint now) \<mapsto> SetupRetryRequest.Responses req)\<rparr>,
            Some \<lparr>Id = ''retry-test-'' @ Itoa (sint now)\<rparr>, None) \<and>
         queue (fst (SetupRetry s now req)) (''retry-test-'' @ Itoa (sint now)) = SetupRetryRequest.Responses req \<and>
         (\<forall>k. k \<noteq> ''retry-test-'' @ Itoa (sint now) \<longrightarrow>
            retryStore (fst (SetupRetry s now req)) k = retryStore s k) \<and>
         (\<forall>s' now' req'. SetupRetryRequest.Responses req' \<noteq> [] \<and> now' \<noteq> now \<longrightarrow>
            fst (snd (SetupRetry s' now' req')) \<noteq> fst (snd (SetupRetry s now req)))"
  using assms
  by (auto simp: SetupRetry_def Let_def queue_def dest: Itoa_sint_inj)

text \<open>The theorem of C6 at the seconds 7 and 8.\<close>

theorem C6_setup_retry_stores_verbatim_witness:
  "SetupRetryRequest.Responses \<lparr>SetupRetryRequest.Responses = [\<lparr>Code = 14, Message = ''unavailable'', Details = []\<rparr>]\<rparr> \<noteq> [] \<and>
   SetupRetry NewShowcaseServer 7
     \<lparr>SetupRetryRequest.Responses = [\<lparr>Code = 14, Message = ''unavailable'', Details = []\<rparr>]\<rparr> =
     (\<lparr>retryStore = [''retry-test-7'' \<mapsto> [\<lparr>Code = 14, Message = ''unavailable'', Details = []\<rparr>]]\<rparr>,
      Some \<lparr>Id = ''retry-test-7''\<rparr>, None) \<and>
   (8 :: int64) \<noteq> 7 \<and>
   fst (snd (SetupRetry NewShowcaseServer 8
     \<lparr>SetupRetryRequest.Responses = [\<lparr>Code = 14, Message = ''unavailable'', Details = []\<rparr>]\<rparr>)) \<noteq>
   fst (snd (SetupRetry NewShowcaseServer 7
     \<lparr>SetupRetryRequest.Responses = [\<lparr>Code = 14, Message = ''unavailable'', Details = []\<rparr>]\<rparr>))"
proof -
  let ?req = "\<lparr>SetupRetryRequest.Responses = [\<lparr>Code = 14, Message = ''unavailable'', Details = []\<rparr>]\<rparr>"
  have h: "SetupRetryRequest.Responses ?req \<noteq> []"
    by simp
  have i: "Itoa 7 = ''7''"
    by (simp add: Itoa_def digits.simps digit_char_def)
  note inst = C6_setup_retry_stores_verbatim [OF h, of NewShowcaseServer 7]
  have d: "(8 :: int64) \<noteq> 7"
    by simp
  from inst have "\<forall>s' now' req'. SetupRetryRequest.Responses req' \<noteq> [] \<and> now' \<noteq> 7 \<longrightarrow>
      fst (snd (SetupRetry s' now' req')) \<noteq> fst (snd (SetupRetry NewShowcaseServer 7 ?req))"
    by (elim conjE)
  with h d have "fst (snd (SetupRetry NewShowcaseServer 8 ?req)) \<noteq>
      fst (snd (SetupRetry NewShowcaseServer 7 ?req))"
    by blast
  moreover from inst have "SetupRetry NewShowcaseServer 7 ?req =
      (\<lparr>retryStore = [''retry-test-7'' \<mapsto> SetupRetryRequest.Responses ?req]\<rparr>, Some \<lparr>Id = ''retry-test-7''\<rparr>, None)"
    by (simp add: i NewShowcaseServer_def)
  ultimately show ?thesis
    using h d by simp
qed

text \<open>
  Claim C6 as stated fails: two calls of \<open>SetupRetry\<close> within the same second return the
  same id, and the second replaces the queue of the first, which no \<open>Retry\<close> had consumed.
\<close>

theorem C6_same_second_counterexample:
  "fst (snd (SetupRetry NewShowcaseServer 7
      \<lparr>SetupRetryRequest.Responses = [\<lparr>Code = 14, Message = ''first'', Details = []\<rparr>]\<rparr>)) =
     Some \<lparr>Id = ''retry-test-7''\<rparr> \<and>
   queue (fst (SetupRetry NewShowcaseServer 7
      \<lparr>SetupRetryRequest.Responses = [\<lparr>Code = 14, Message = ''first'', Details = []\<rparr>]\<rparr>)) ''retry-test-7'' =
     [\<lparr>Code = 14, Message = ''first'', Details = []\<rparr>] \<and>
   fst (snd (SetupRetry (fst (SetupRetry NewShowcaseServer 7
      \<lparr>SetupRetryRequest.Responses = [\<lparr>Code = 14, Message = ''first'', Details = []\<rparr>]\<rparr>)) 7
      \<lparr>SetupRetryRequest.Responses = [\<lparr>Code = 0, Message = ''second'', Details = []\<rparr>]\<rparr>)) =
     Some \<lparr>Id = ''retry-test-7''\<rparr> \<and>
   queue (fst (SetupRetry (fst (SetupRetry NewShowcaseServer 7
      \<lparr>SetupRetryRequest.Responses = [\<lparr>Code = 14, Message = ''first'', Details = []\<rparr>]\<rparr>)) 7
      \<lparr>SetupRetryRequest.Responses = [\<lparr>Code = 0, Message = ''second'', Details = []\<rparr>]\<rparr>)) ''retry-test-7'' =
     [\<lparr>Code = 0, Message = ''second'', Details = []\<rparr>]"
proof -
  have i: "Itoa 7 = ''7''"
    by (simp add: Itoa_def digits.simps digit_char_def)
  show ?thesis
    by (simp add: SetupRetry_def Let_def queue_def NewShowcaseServer_def i)
qed

section \<open>Collect: what is proved\<close>

lemma Collect_loop_messages:
  assumes "\<forall>m \<in> set msgs. ErrorProto (EchoRequest.Error m) = None"
  shows "Collect_loop close (map Msg msgs) resp =
           (Some \<lparr>EchoResponse.Content =
                    Join (resp @ filter (\<lambda>c. c \<noteq> []) (map EchoRequest.Content msgs)) '' ''\<rparr>,
            close \<lparr>EchoResponse.Content =
                    Join (resp @ filter (\<lambda>c. c \<noteq> []) (map EchoRequest.Content msgs)) '' ''\<rparr>,
            [])"
  using assms by (induction msgs arbitrary: resp) simp_all

text \<open>
  Claim C7. When every request of the stream passes the error check (none carries an
  error descriptor, or the descriptor's code is OK) and the stream then ends, \<open>Collect\<close>
  reads all of it and hands \<open>SendAndClose\<close> one response: the non-empty contents, in the
  order of arrival, joined with single spaces. It returns what \<open>SendAndClose\<close> returns.
\<close>

theorem C7_collect_joins:
  assumes "\<forall>m \<in> set msgs. ErrorProto (EchoRequest.Error m) = None"
  shows "Collect close (map Msg msgs) =
           (Some \<lparr>EchoResponse.Content =
                    Join (filter (\<lambda>c. c \<noteq> []) (map EchoRequest.Content msgs)) '' ''\<rparr>,
            close \<lparr>EchoResponse.Content =
                    Join (filter (\<lambda>c. c \<noteq> []) (map EchoRequest.Content msgs)) '' ''\<rparr>,
            [])"
  using Collect_loop_messages [OF assms, of close "[]"] by (simp add: Collect_def)

text \<open>The theorem of C7 at the contents \<open>a\<close>, \<open>b\<close>, empty, \<open>c\<close>: the response is \<open>a b c\<close>.\<close>

theorem C7_collect_joins_witness:
  "ErrorProto (EchoRequest.Error \<lparr>EchoRequest.Content = ''a'', Error = None\<rparr>) = None \<and>
   ErrorProto (EchoRequest.Error \<lparr>EchoRequest.Content = ''b'', Error = None\<rparr>) = None \<and>
   ErrorProto (EchoRequest.Error \<lparr>EchoRequest.Content = [], Error = None\<rparr>) = None \<and>
   ErrorProto (EchoRequest.Error \<lparr>EchoRequest.Content = ''c'', Error = None\<rparr>) = None \<and>
   Collect (\<lambda>r. None)
     [Msg \<lparr>EchoRequest.Content = ''a'', Error = None\<rparr>,
      Msg \<lparr>EchoRequest.Content = ''b'', Error = None\<rparr>,
      Msg \<lparr>EchoRequest.Content = [], Error = None\<rparr>,
      Msg \<lparr>EchoRequest.Content = ''c'', Error = None\<rparr>] =
     (Some \<lparr>EchoResponse.Content = ''a b c''\<rparr>, None, [])"
proof -
  let ?msgs = "[\<lparr>EchoRequest.Content = ''a'', Error = None\<rparr>,
      \<lparr>EchoRequest.Content = ''b'', Error = None\<rparr>,
      \<lparr>EchoRequest.Content = [], Error = None\<rparr>,
      \<lparr>EchoRequest.Content = ''c'', Error = None\<rparr>]"
  have h: "\<forall>m \<in> set ?msgs. ErrorProto (EchoRequest.Error m) = None"
    by (simp add: ErrorProto_def)
  from C7_collect_joins [OF h, of "\<lambda>r. None"] show ?thesis
    by (simp add: ErrorProto_def)
qed

lemma Collect_loop_abort:
  assumes "\<forall>m \<in> set pre. ErrorProto (EchoRequest.Error m) = None"
    and "ErrorProto (EchoRequest.Error bad) = Some e"
  shows "Collect_loop close (map Msg pre @ Msg bad # rest) resp = (None, Some e, rest)"
  using assms by (induction pre arbitrary: resp) simp_all

text \<open>
  Claim C8. When a request with an error descriptor whose code is not OK arrives after
  requests that pass the error check, \<open>Collect\<close> returns exactly that error: it reads
  nothing after that request, hands no response to \<open>SendAndClose\<close>, and the contents it
  had gathered appear nowhere in the result.
\<close>

theorem C8_collect_aborts_on_error:
  assumes "\<forall>m \<in> set pre. ErrorProto (EchoRequest.Error m) = None"
    and "EchoRequest.Error bad = Some st"
    and "Code st \<noteq> OK"
  shows "Collect close (map Msg pre @ Msg bad # rest) = (None, Some (StatusErr st), rest)"
proof -
  from assms(2,3) have "ErrorProto (EchoRequest.Error bad) = Some (StatusErr st)"
    by (simp add: ErrorProto_def)
  with assms(1) show ?thesis
    by (simp add: Collect_def Collect_loop_abort)
qed

text \<open>The theorem of C8 at the stream \<open>a\<close>, an injected error, \<open>b\<close>.\<close>

theorem C8_collect_aborts_on_error_witness:
  "ErrorProto (EchoRequest.Error \<lparr>EchoRequest.Content = ''a'', Error = None\<rparr>) = None \<and>
   EchoRequest.Error
     \<lparr>EchoRequest.Content = [],
      Error = Some \<lparr>Code = 14, Message = ''unavailable'', Details = []\<rparr>\<rparr> =
     Some \<lparr>Code = 14, Message = ''unavailable'', Details = []\<rparr> \<and>
   Code \<lparr>Code = 14, Message = ''unavailable'', Details = []\<rparr> \<noteq> OK \<and>
   Collect (\<lambda>r. None)
     [Msg \<lparr>EchoRequest.Content = ''a'', Error = None\<rparr>,
      Msg \<lparr>EchoRequest.Content = [],
           Error = Some \<lparr>Code = 14, Message = ''unavailable'', Details = []\<rparr>\<rparr>,
      Msg \<lparr>EchoRequest.Content = ''b'', Error = None\<rparr>] =
     (None, Some (StatusErr \<lparr>Code = 14, Message = ''unavailable'', Details = []\<rparr>),
      [Msg \<lparr>EchoRequest.Content = ''b'', Error = None\<rparr>])"
proof -
  let ?st = "\<lparr>Code = 14, Message = ''unavailable'', Details = []\<rparr>"
  let ?pre = "[\<lparr>EchoRequest.Content = ''a'', Error = None\<rparr>]"
  let ?bad = "\<lparr>EchoRequest.Content = [], Error = Some ?st\<rparr>"
  have h1: "\<forall>m \<in> set ?pre. ErrorProto (EchoRequest.Error m) = None"
    by (simp add: ErrorProto_def)
  have h2: "EchoRequest.Error ?bad = Some ?st"
    by simp
  have h3: "Code ?st \<noteq> OK"
    by (simp add: OK_def)
  from C8_collect_aborts_on_error [OF h1 h2 h3, of "\<lambda>r. None"
      "[Msg \<lparr>EchoRequest.Content = ''b'', Error = None\<rparr>]"] h3
  show ?thesis
    by (simp add: ErrorProto_def)
qed

section \<open>Expand and Timeout: what is proved\<close>

lemma Expand_loop_all_sent:
  assumes "\<forall>sent m. send sent m = None"
  shows "Expand_loop send ws sent = (sent @ map (\<lambda>w. \<lparr>EchoResponse.Content = w\<rparr>) ws, None)"
  using assms by (induction ws arbitrary: sent) simp_all

lemma Fields_from_nonempty:
  "w \<in> set (Fields_from cur s) \<Longrightarrow> w \<noteq> []"
  by (induction cur s rule: Fields_from.induct) (auto split: if_splits)

lemma Fields_nonempty: "w \<in> set (Fields s) \<Longrightarrow> w \<noteq> []"
  by (auto simp: Fields_def dest: Fields_from_nonempty)

lemma space_width_ascii:
  assumes "(of_char c :: nat) < 128"
  shows "space_width (c # cs) =
           (if (of_char c :: nat) = 32 \<or> (9 \<le> (of_char c :: nat) \<and> (of_char c :: nat) \<le> 13)
            then 1 else 0)"
  using assms by (auto simp: space_width_def white_space_def utf8_def)

lemma Fields_hello_world: "Fields ''hello world'' = [''hello'', ''world'']"
  by (simp add: Fields_def space_width_ascii)

lemma utf8_nonempty: "utf8 cp \<noteq> []"
  by (simp add: utf8_def)

lemma space_width_zero_iff:
  "space_width s = 0 \<longleftrightarrow>
     (\<forall>enc \<in> set (map utf8 white_space). take (length enc) (map of_char s) \<noteq> enc)"
proof (cases "find (\<lambda>enc. take (length enc) (map of_char s) = enc) (map utf8 white_space)")
  case None
  then have "space_width s = 0"
    by (simp add: space_width_def)
  moreover from None
  have "\<forall>enc \<in> set (map utf8 white_space). take (length enc) (map of_char s) \<noteq> enc"
    by (simp only: find_None_iff) blast
  ultimately show ?thesis
    by simp
next
  case (Some enc)
  then have "enc \<in> set (map utf8 white_space)" and "take (length enc) (map of_char s) = enc"
    by (auto simp: find_Some_iff)
  moreover from this have "enc \<noteq> []"
    using utf8_nonempty by auto
  ultimately show ?thesis
    using Some by (auto simp: space_width_def)
qed

lemma space_width_prefix:
  assumes "space_width (xs @ ys) = 0"
  shows "space_width xs = 0"
proof -
  from assms
  have all: "\<forall>enc \<in> set (map utf8 white_space). take (length enc) (map of_char (xs @ ys)) \<noteq> enc"
    by (simp only: space_width_zero_iff)
  have "take (length enc) (map of_char xs) \<noteq> enc"
    if "enc \<in> set (map utf8 white_space)" for enc :: "nat list"
  proof
    assume eq: "take (length enc) (map of_char xs) = enc"
    then have "length enc \<le> length xs"
      by (metis length_map length_take min.absorb_iff2 min.commute nat_le_linear)
    with eq have "take (length enc) (map of_char (xs @ ys)) = enc"
      by simp
    with all that show False
      by blast
  qed
  then show ?thesis
    by (simp add: space_width_zero_iff)
qed

text \<open>No word of \<open>Fields\<close> holds a white-space rune, at any position.\<close>

lemma Fields_from_no_space:
  assumes "\<forall>i<length cur. space_width (drop i cur @ s) = 0"
  shows "\<forall>w \<in> set (Fields_from cur s). \<forall>i<length w. space_width (drop i w) = 0"
  using assms
proof (induction cur s rule: Fields_from.induct)
  case (1 cur)
  then show ?case
    by simp
next
  case (2 cur c cs)
  show ?case
  proof (cases "space_width (c # cs) = 0")
    case True
    have "\<forall>i<length (cur @ [c]). space_width (drop i (cur @ [c]) @ cs) = 0"
    proof (intro allI impI)
      fix i
      assume "i < length (cur @ [c])"
      then consider "i < length cur" | "i = length cur"
        by fastforce
      then show "space_width (drop i (cur @ [c]) @ cs) = 0"
      proof cases
        case 1
        with "2.prems" show ?thesis
          by simp
      next
        case 2
        with True show ?thesis
          by simp
      qed
    qed
    with "2.IH"(1) [OF True] True show ?thesis
      by simp
  next
    case False
    have "\<forall>i<length cur. space_width (drop i cur) = 0"
      using "2.prems" space_width_prefix by blast
    moreover have "\<forall>w \<in> set (Fields_from [] (drop (space_width (c # cs)) (c # cs))).
        \<forall>i<length w. space_width (drop i w) = 0"
      using "2.IH"(2) [OF False] by simp
    ultimately show ?thesis
      using False by auto
  qed
qed

lemma Fields_no_space:
  "w \<in> set (Fields s) \<Longrightarrow> i < length w \<Longrightarrow> space_width (drop i w) = 0"
  using Fields_from_no_space [of "[]" s] by (simp add: Fields_def)

text \<open>In an ASCII string the words, one after the other, are the string without its white space.\<close>

lemma Fields_from_filter_ascii:
  assumes "\<forall>c \<in> set s. (of_char c :: nat) < 128"
  shows "concat (Fields_from cur s) = cur @ filter (\<lambda>c. space_width [c] = 0) s"
  using assms
proof (induction cur s rule: Fields_from.induct)
  case (1 cur)
  then show ?case by simp
next
  case (2 cur c cs)
  then show ?case
    by (auto simp: space_width_ascii)
qed

text \<open>
  White space of several bytes separates words (a no-break space, a tab, an ideographic
  space), and a rune that is not white space does not (a zero-width space).
\<close>

lemma Fields_nbsp:
  "Fields [CHR ''a'', CHR 0xC2, CHR 0xA0, CHR 0x09, CHR ''b'', CHR 0xE3, CHR 0x80, CHR 0x80] =
     [''a'', ''b'']"
  by (simp add: Fields_def space_width_def white_space_def utf8_def)

lemma Fields_zwsp:
  "Fields [CHR ''a'', CHR 0xE2, CHR 0x80, CHR 0x8B, CHR ''b''] =
     [[CHR ''a'', CHR 0xE2, CHR 0x80, CHR 0x8B, CHR ''b'']]"
  by (simp add: Fields_def space_width_def white_space_def utf8_def)

text \<open>
  Claim C9. On a stream whose \<open>Send\<close> succeeds, \<open>Expand\<close> sends one response for each
  word of \<open>strings.Fields\<close> of the content, in the order of the words, and only then
  returns: the error of the request's descriptor when it has one with a code other than
  OK, and no error when it has none.
\<close>

theorem C9_expand_words_then_error:
  assumes "\<forall>sent m. send sent m = None"
  shows "fst (Expand req send) =
           map (\<lambda>w. \<lparr>EchoResponse.Content = w\<rparr>) (Fields (ExpandRequest.Content req)) \<and>
         snd (Expand req send) = ErrorProto (ExpandRequest.Error req) \<and>
         (\<forall>st. ExpandRequest.Error req = Some st \<and> Code st \<noteq> OK \<longrightarrow>
            snd (Expand req send) = Some (StatusErr st)) \<and>
         (ExpandRequest.Error req = None \<longrightarrow> snd (Expand req send) = None)"
  using Expand_loop_all_sent [OF assms, of "Fields (ExpandRequest.Content req)" "[]"]
  by (auto simp: Expand_def ErrorProto_def)

text \<open>The theorem of C9 at the content \<open>hello world\<close>, without and with an error.\<close>

theorem C9_expand_words_then_error_witness:
  "(\<forall>sent m. (\<lambda>s r. None :: rpc_error option) sent m = None) \<and>
   Expand \<lparr>ExpandRequest.Content = ''hello world'', Error = None\<rparr> (\<lambda>s r. None) =
     ([\<lparr>EchoResponse.Content = ''hello''\<rparr>, \<lparr>EchoResponse.Content = ''world''\<rparr>], None) \<and>
   ExpandRequest.Error
     \<lparr>ExpandRequest.Content = ''hello world'',
      Error = Some \<lparr>Code = 14, Message = ''unavailable'', Details = []\<rparr>\<rparr> =
     Some \<lparr>Code = 14, Message = ''unavailable'', Details = []\<rparr> \<and>
   Code \<lparr>Code = 14, Message = ''unavailable'', Details = []\<rparr> \<noteq> OK \<and>
   Expand \<lparr>ExpandRequest.Content = ''hello world'',
           Error = Some \<lparr>Code = 14, Message = ''unavailable'', Details = []\<rparr>\<rparr> (\<lambda>s r. None) =
     ([\<lparr>EchoResponse.Content = ''hello''\<rparr>, \<lparr>EchoResponse.Content = ''world''\<rparr>],
      Some (StatusErr \<lparr>Code = 14, Message = ''unavailable'', Details = []\<rparr>))"
proof -
  let ?send = "\<lambda>(s :: EchoResponse list) (r :: EchoResponse). None :: rpc_error option"
  let ?st = "\<lparr>Code = 14, Message = ''unavailable'', Details = []\<rparr>"
  let ?ok = "\<lparr>ExpandRequest.Content = ''hello world'', Error = None\<rparr>"
  let ?bad = "\<lparr>ExpandRequest.Content = ''hello world'', Error = Some ?st\<rparr>"
  have h: "\<forall>sent m. ?send sent m = None"
    by simp
  have c: "Code ?st \<noteq> OK"
    by (simp add: OK_def)
  have "Expand ?ok ?send = ([\<lparr>EchoResponse.Content = ''hello''\<rparr>, \<lparr>EchoResponse.Content = ''world''\<rparr>], None)"
    using C9_expand_words_then_error [OF h, of ?ok]
    by (simp add: Fields_hello_world prod_eq_iff ErrorProto_def)
  moreover have "Expand ?bad ?send =
      ([\<lparr>EchoResponse.Content = ''hello''\<rparr>, \<lparr>EchoResponse.Content = ''world''\<rparr>],
       Some (StatusErr ?st))"
    using C9_expand_words_then_error [OF h, of ?bad] c
    by (simp add: Fields_hello_world prod_eq_iff ErrorProto_def)
  ultimately show ?thesis
    using c by simp
qed

lemma ptypes_Duration_error_zero: "snd (ptypes_Duration p) \<Longrightarrow> fst (ptypes_Duration p) = 0"
  by (auto simp: ptypes_Duration_def Let_def split: option.splits if_splits)

lemma ptypes_Duration_zero: "ptypes_Duration (Some \<lparr>Seconds = 0, Nanos = 0\<rparr>) = (0, False)"
  by (simp add: ptypes_Duration_def validateDuration_def maxSeconds_def trunc_div_def)

text \<open>
  Claim C10. When \<open>ptypes.Duration\<close> fails on the delay of the request (absent or
  malformed), \<open>Timeout\<close> drops that failure: it sleeps for the duration 0 and returns the
  injected error or the success payload of the request, as it does for a delay of zero.
\<close>

theorem C10_timeout_ignores_bad_delay:
  assumes "snd (ptypes_Duration (ResponseDelay req))"
  shows "Timeout req =
           (0,
            if TimeoutRequest.Error req \<noteq> None then (None, ErrorProto (TimeoutRequest.Error req))
            else (Success req, None)) \<and>
         Timeout req = Timeout (req\<lparr>ResponseDelay := Some \<lparr>Seconds = 0, Nanos = 0\<rparr>\<rparr>)"
  using ptypes_Duration_error_zero [OF assms]
  by (simp add: Timeout_def ptypes_Duration_zero)

text \<open>The theorem of C10 at an absent delay and at a delay with 1000000000 nanoseconds.\<close>

theorem C10_timeout_ignores_bad_delay_witness:
  "snd (ptypes_Duration (ResponseDelay
      \<lparr>ResponseDelay = None, Error = None,
       Success = Some \<lparr>TimeoutResponse.Content = ''done''\<rparr>\<rparr>)) \<and>
   Timeout \<lparr>ResponseDelay = None, Error = None,
            Success = Some \<lparr>TimeoutResponse.Content = ''done''\<rparr>\<rparr> =
     (0, Some \<lparr>TimeoutResponse.Content = ''done''\<rparr>, None) \<and>
   snd (ptypes_Duration (ResponseDelay
      \<lparr>ResponseDelay = Some \<lparr>Seconds = 1, Nanos = 1000000000\<rparr>,
       Error = Some \<lparr>Code = 14, Message = ''unavailable'', Details = []\<rparr>,
       Success = None\<rparr>)) \<and>
   Timeout \<lparr>ResponseDelay = Some \<lparr>Seconds = 1, Nanos = 1000000000\<rparr>,
            Error = Some \<lparr>Code = 14, Message = ''unavailable'', Details = []\<rparr>,
            Success = None\<rparr> =
     (0, None, Some (StatusErr \<lparr>Code = 14, Message = ''unavailable'', Details = []\<rparr>))"
proof -
  let ?a = "\<lparr>ResponseDelay = None, Error = None,
       Success = Some \<lparr>TimeoutResponse.Content = ''done''\<rparr>\<rparr>"
  let ?b = "\<lparr>ResponseDelay = Some \<lparr>Seconds = 1, Nanos = 1000000000\<rparr>,
       Error = Some \<lparr>Code = 14, Message = ''unavailable'', Details = []\<rparr>,
       Success = None\<rparr>"
  have ha: "snd (ptypes_Duration (ResponseDelay ?a))"
    by (simp add: ptypes_Duration_def validateDuration_def)
  have hb: "snd (ptypes_Duration (ResponseDelay ?b))"
    by (simp add: ptypes_Duration_def validateDuration_def maxSeconds_def)
  from C10_timeout_ignores_bad_delay [OF ha] C10_timeout_ignores_bad_delay [OF hb] ha hb
  show ?thesis
    by (simp add: ErrorProto_def OK_def)
qed

lemma ptypes_Duration_ok: "ptypes_Duration (Some \<lparr>Seconds = 2, Nanos = 500000000\<rparr>) = (2500000000, False)"
  by (simp add: ptypes_Duration_def validateDuration_def maxSeconds_def trunc_div_def)

lemma ptypes_Duration_neg: "ptypes_Duration (Some \<lparr>Seconds = -2, Nanos = -500000000\<rparr>) = (-2500000000, False)"
  by (simp add: ptypes_Duration_def validateDuration_def maxSeconds_def trunc_div_def)

lemma ptypes_Duration_big: "ptypes_Duration (Some \<lparr>Seconds = 315576000000, Nanos = 0\<rparr>) = (0, True)"
  by (simp add: ptypes_Duration_def validateDuration_def maxSeconds_def trunc_div_def)

section \<open>Pagination: what is proved\<close>

lemma sint_succ32:
  fixes i e :: int32
  assumes "sint i < sint e"
  shows "sint (i + 1) = sint i + 1"
proof -
  have "sint e < 2 ^ (LENGTH(32) - 1)"
    by (rule sint_lt)
  with assms have "sint i + 1 < 2 ^ (LENGTH(32) - 1)"
    by simp
  moreover have "- (2 ^ (LENGTH(32) - 1)) \<le> sint i"
    by (rule sint_ge)
  ultimately have "signed_take_bit (LENGTH(32) - 1) (sint i + 1) = sint i + 1"
    by (intro signed_take_bit_int_eq_self) simp_all
  then show ?thesis
    by (simp add: sint_word_ariths)
qed

lemma page_loop_upto:
  "page_loop i e page = page @ map word_of_int [sint i..sint e - 1]"
proof (induction i e page rule: page_loop.induct)
  case (1 i e page)
  show ?case
  proof (cases "sint i < sint e")
    case True
    then have "[sint i..sint e - 1] = sint i # [sint (i + 1)..sint e - 1]"
      by (simp add: sint_succ32 upto_rec1)
    with True 1 show ?thesis
      by (simp add: page_loop.simps [of i e page])
  next
    case False
    then show ?thesis
      by (simp add: page_loop.simps [of i e page])
  qed
qed

lemma hd_digits_is_digit: "is_digit (hd (digits n))"
  using digits_all_digit [of "hd (digits n)" n] digits_nonempty [of n] by simp

lemma Atoi_Itoa:
  assumes "0 \<le> n" and "n < 2 ^ 63"
  shows "Atoi (Itoa n) = Some n"
proof -
  have "hd (digits (nat n)) \<noteq> CHR ''-''" and "hd (digits (nat n)) \<noteq> CHR ''+''"
    using hd_digits_is_digit [of "nat n"] by (auto simp: is_digit_def)
  moreover have "nat n < 2 ^ 63"
    using assms by (simp add: nat_less_iff)
  ultimately show ?thesis
    using assms by (simp add: Atoi_def Itoa_def digits_nonempty parse_digits_digits)
qed

lemma sint_word_of_int32:
  assumes "- 2147483648 \<le> k" and "k \<le> 2147483647"
  shows "sint (word_of_int k :: int32) = k"
  using assms by (simp add: sint_sbintrunc' signed_take_bit_int_eq_self)

lemma sint_add32:
  fixes a b :: int32
  assumes "- 2147483648 \<le> sint a + sint b" and "sint a + sint b \<le> 2147483647"
  shows "sint (a + b) = sint a + sint b"
  using assms by (simp add: sint_word_ariths signed_take_bit_int_eq_self)

lemma sint32_bounds:
  fixes a :: int32
  shows "- 2147483648 \<le> sint a" and "sint a \<le> 2147483647"
  using sint_ge [of a] sint_lt [of a] by simp_all

lemma Pagination_start_empty:
  "PageToken req = [] \<Longrightarrow> Pagination_start req = Some 0"
  by (simp add: Pagination_start_def)

lemma Pagination_start_in_range:
  assumes "PageToken req \<noteq> []" and "Atoi (PageToken req) = Some t"
    and "0 \<le> t" and "t \<le> sint (MaxResponse req)"
  shows "Pagination_start req = Some (word_of_int t)" and "sint (word_of_int t :: int32) = t"
proof -
  have "t \<le> 2147483647"
    using assms(4) sint32_bounds(2) [of "MaxResponse req"] by simp
  with assms(3) show s: "sint (word_of_int t :: int32) = t"
    by (simp add: sint_word_of_int32)
  with assms show "Pagination_start req = Some (word_of_int t)"
    by (simp add: Pagination_start_def Let_def)
qed

lemma Pagination_start_syntax:
  assumes "PageToken req \<noteq> []" and "Atoi (PageToken req) = None"
  shows "Pagination_start req = None"
  using assms by (simp add: Pagination_start_def)

lemma Pagination_start_out_of_range:
  assumes "PageToken req \<noteq> []" and "Atoi (PageToken req) = Some t"
    and "- 2147483648 \<le> t" and "t \<le> 2147483647"
    and "t < 0 \<or> sint (MaxResponse req) < t"
  shows "Pagination_start req = None"
  using assms by (auto simp: Pagination_start_def Let_def sint_word_of_int32)

lemma Pagination_start_bounds:
  assumes "Pagination_start req = Some start" and "0 < sint (MaxResponse req)"
  shows "0 \<le> sint start" and "sint start \<le> sint (MaxResponse req)"
  using assms
  by (auto simp: Pagination_start_def Let_def split: if_splits option.splits)

lemma Pagination_window:
  assumes sizes: "0 \<le> sint (PageSize req)" "0 \<le> sint (PageSizeOverride req)"
    and max: "0 < sint (MaxResponse req)"
    and start: "Pagination_start req = Some start"
    and fits: "sint start + effective_size req \<le> 2147483647"
  shows "Pagination req =
           (Some \<lparr>Responses = map word_of_int [sint start..window_end req (sint start) - 1],
                   NextPageToken =
                     (if window_end req (sint start) < sint (MaxResponse req)
                      then Itoa (window_end req (sint start)) else [])\<rparr>,
            None)"
proof -
  define actualSize where
    "actualSize = (if 0 < sint (PageSizeOverride req) then PageSizeOverride req else PageSize req)"
  define end0 where "end0 = start + actualSize"
  define end1 where "end1 = (if actualSize = 0 then MaxResponse req else end0)"
  define end2 where "end2 = (if sint (MaxResponse req) < sint end1 then MaxResponse req else end1)"
  have eff: "sint actualSize = effective_size req"
    by (simp add: actualSize_def effective_size_def)
  have eff0: "actualSize = 0 \<longleftrightarrow> effective_size req = 0"
    using eff by (metis signed_word_eqI sint_0)
  have nonneg: "0 \<le> effective_size req"
    using sizes by (simp add: effective_size_def)
  have s0: "0 \<le> sint start" and s1: "sint start \<le> sint (MaxResponse req)"
    using Pagination_start_bounds [OF start max] by simp_all
  have "sint end0 = sint start + effective_size req"
    unfolding end0_def using fits nonneg s0 eff by (simp add: sint_add32)
  then have e1: "sint end1 =
      (if effective_size req = 0 then sint (MaxResponse req) else sint start + effective_size req)"
    by (simp add: end1_def eff0)
  have e2: "sint end2 = window_end req (sint start)"
    using e1 s0 by (auto simp: end2_def window_end_def min_def)
  have "Pagination req =
      (Some \<lparr>Responses = page_loop start end2 [],
              NextPageToken = (if sint end2 < sint (MaxResponse req) then Itoa (sint end2) else [])\<rparr>,
       None)"
    using sizes max start
    by (simp add: Pagination_def Let_def actualSize_def end0_def end1_def end2_def)
  then show ?thesis
    by (simp add: page_loop_upto e2)
qed

lemma Itoa_nonempty: "Itoa n \<noteq> []"
  by (simp add: Itoa_def digits_nonempty)

lemma client_pages_partition_from:
  fixes ps pso mx :: int32
  defines "req \<equiv> \<lambda>tok. \<lparr>PageSize = ps, PageSizeOverride = pso, PageToken = tok, MaxResponse = mx\<rparr>"
  defines "eff \<equiv> (if 0 < sint pso then sint pso else sint ps)"
  assumes sizes: "0 \<le> sint ps" "0 \<le> sint pso"
    and max: "0 < sint mx"
    and fits: "sint mx + eff \<le> 2147483647"
    and start: "Pagination_start (req tok) = Some start"
    and less: "sint start < sint mx"
    and fuel: "nat (sint mx - sint start) \<le> fuel"
  shows "\<exists>pages. client_pages fuel ps pso mx tok = Some (pages, None) \<and>
           concat pages = map word_of_int [sint start..sint mx - 1] \<and> [] \<notin> set pages"
  using start less fuel
proof (induction fuel arbitrary: tok start)
  case 0
  then show ?case
    by simp
next
  case (Suc n)
  define e where "e = window_end (req tok) (sint start)"
  have effr: "effective_size (req tok) = eff"
    by (simp add: effective_size_def req_def eff_def)
  have nonneg: "0 \<le> eff"
    using sizes by (simp add: eff_def)
  have s0: "0 \<le> sint start"
    using Pagination_start_bounds(1) [OF Suc.prems(1)] max by (simp add: req_def)
  have e_def': "e = min (sint start + (if eff = 0 then sint mx else eff)) (sint mx)"
    by (simp add: e_def window_end_def effr) (simp add: req_def)
  have call: "Pagination (req tok) =
      (Some \<lparr>Responses = map word_of_int [sint start..e - 1],
              NextPageToken = (if e < sint mx then Itoa e else [])\<rparr>, None)"
  proof -
    have "sint start + effective_size (req tok) \<le> 2147483647"
      using fits Suc.prems(2) by (simp add: effr)
    from Pagination_window [OF _ _ _ Suc.prems(1) this] sizes max show ?thesis
      by (simp add: req_def e_def)
  qed
  show ?case
  proof (cases "e < sint mx")
    case False
    then have "e = sint mx"
      by (simp add: e_def')
    with call False Suc.prems(2) show ?thesis
      by (simp add: req_def)
  next
    case True
    then have eff_pos: "eff \<noteq> 0" and e_eq: "e = sint start + eff"
      using s0 by (auto simp: e_def' min_def split: if_splits)
    with nonneg have gt: "sint start < e"
      by simp
    have e0: "0 \<le> e"
      using s0 gt by simp
    have "e < 2 ^ 63"
      using True sint32_bounds(2) [of mx] by simp
    then have atoi: "Atoi (Itoa e) = Some e"
      using e0 by (simp add: Atoi_Itoa)
    have next_start: "Pagination_start (req (Itoa e)) = Some (word_of_int e)"
      and sint_e: "sint (word_of_int e :: int32) = e"
      using Pagination_start_in_range [of "req (Itoa e)" e] atoi e0 True
      by (simp_all add: req_def Itoa_nonempty)
    have "nat (sint mx - sint (word_of_int e :: int32)) \<le> n"
      using Suc.prems(3) gt True by (simp add: sint_e)
    with Suc.IH [OF next_start] True sint_e
    obtain pages where rest: "client_pages n ps pso mx (Itoa e) = Some (pages, None)"
      and cat: "concat pages = map word_of_int [e..sint mx - 1]"
      and ne: "[] \<notin> set pages"
      by auto
    have split: "[sint start..sint mx - 1] = [sint start..e - 1] @ [e..sint mx - 1]"
      using gt True by (intro upto_split1) simp_all
    have "client_pages (Suc n) ps pso mx tok =
        Some (map word_of_int [sint start..e - 1] # pages, None)"
      using call True rest by (simp add: req_def Itoa_nonempty)
    moreover have "[sint start..e - 1] \<noteq> []"
      using gt by simp
    ultimately show ?thesis
      using cat ne split by simp
  qed
qed

lemma client_pages_partition:
  fixes ps pso mx :: int32
  assumes "0 \<le> sint ps" and "0 \<le> sint pso" and "0 < sint mx"
    and "sint mx + (if 0 < sint pso then sint pso else sint ps) \<le> 2147483647"
  shows "\<exists>pages. client_pages (nat (sint mx)) ps pso mx [] = Some (pages, None) \<and>
           concat pages = map word_of_int [0..sint mx - 1] \<and> [] \<notin> set pages"
  using client_pages_partition_from [OF assms(1,2,3,4), of "[]" 0 "nat (sint mx)"] assms(3)
  by (simp add: Pagination_start_def)

text \<open>
  The example of the specification: \<open>maxResponse\<close> 10 and page size 3 give the pages
  0 to 2, 3 to 5, 6 to 8 and 9.
\<close>

lemma client_pages_example:
  "client_pages 4 3 0 10 [] = Some ([[0, 1, 2], [3, 4, 5], [6, 7, 8], [9]], None)"
proof -
  have four: "(4 :: nat) = Suc (Suc (Suc (Suc 0)))"
    by simp
  have i: "Itoa 3 = ''3''" "Itoa 6 = ''6''" "Itoa 9 = ''9''"
    by (simp_all add: Itoa_def digits.simps digit_char_def)
  have a: "Atoi ''3'' = Some 3" "Atoi ''6'' = Some 6" "Atoi ''9'' = Some 9"
    by (simp_all add: Atoi_def is_digit_def digit_val_def)
  show ?thesis
    unfolding four
    by (simp add: Pagination_def Pagination_start_def i a page_loop.simps Let_def)
qed

text \<open>
  Claim C2 fails on the code. With page size 2147483647, token \<open>1\<close> and \<open>maxResponse\<close> 10
  the sum \<open>start + actualSize\<close> wraps around to \<open>-2147483648\<close>: the clamp to
  \<open>maxResponse\<close> does not fire, the page is empty and the next token is \<open>-2147483648\<close>,
  where the claim gives the window from 1 to 10 (the items 1 to 9) and the empty token.
\<close>

theorem C2_overflow_breaks_window:
  "Atoi ''1'' = Some 1 \<and>
   Pagination
     \<lparr>PageSize = 2147483647, PageSizeOverride = 0, PageToken = ''1'', MaxResponse = 10\<rparr> =
     (Some \<lparr>Responses = [], NextPageToken = ''-2147483648''\<rparr>, None) \<and>
   window_end
     \<lparr>PageSize = 2147483647, PageSizeOverride = 0, PageToken = ''1'', MaxResponse = 10\<rparr> 1 =
     10"
proof -
  have a: "Atoi ''1'' = Some 1"
    by (simp add: Atoi_def is_digit_def digit_val_def)
  have i: "Itoa (- 2147483648) = ''-2147483648''"
    by (simp add: Itoa_def digits.simps digit_char_def)
  show ?thesis
    by (simp add: Pagination_def Pagination_start_def a i page_loop.simps Let_def
        window_end_def effective_size_def)
qed

text \<open>
  Claim C3 fails on the code. The token \<open>4294967296\<close> parses as an \<open>int\<close> greater than
  \<open>maxResponse\<close> = 10, but \<open>int32(token)\<close> is 0 and the range check is made on that
  value: the call succeeds with the window starting at 0, where the claim gives an
  invalid-argument error.
\<close>

theorem C3_truncated_token_accepted:
  "Atoi ''4294967296'' = Some 4294967296 \<and>
   Pagination
     \<lparr>PageSize = 3, PageSizeOverride = 0, PageToken = ''4294967296'', MaxResponse = 10\<rparr> =
     (Some \<lparr>Responses = [0, 1, 2], NextPageToken = ''3''\<rparr>, None)"
proof -
  have a: "Atoi ''4294967296'' = Some 4294967296"
    by (simp add: Atoi_def is_digit_def digit_val_def)
  have i: "Itoa 3 = ''3''"
    by (simp add: Itoa_def digits.simps digit_char_def)
  show ?thesis
    by (simp add: Pagination_def Pagination_start_def a i page_loop.simps Let_def)
qed

lemma C4_call1:
  "Pagination \<lparr>PageSize = 1073741825, PageSizeOverride = 0, PageToken = [],
               MaxResponse = 2147483647\<rparr> =
     (Some \<lparr>Responses = page_loop 0 1073741825 [], NextPageToken = ''1073741825''\<rparr>, None)"
proof -
  have i: "Itoa 1073741825 = ''1073741825''"
    by (simp add: Itoa_def digits.simps digit_char_def)
  show ?thesis
    by (simp add: Pagination_def Pagination_start_def i Let_def)
qed

lemma C4_call2:
  "Pagination \<lparr>PageSize = 1073741825, PageSizeOverride = 0, PageToken = ''1073741825'',
               MaxResponse = 2147483647\<rparr> =
     (Some \<lparr>Responses = [], NextPageToken = ''-2147483646''\<rparr>, None)"
proof -
  have a: "Atoi ''1073741825'' = Some 1073741825"
    by (simp add: Atoi_def is_digit_def digit_val_def)
  have i: "Itoa (- 2147483646) = ''-2147483646''"
    by (simp add: Itoa_def digits.simps digit_char_def)
  have p: "page_loop 1073741825 2147483650 [] = []"
    by (simp add: page_loop.simps [of 1073741825])
  show ?thesis
    by (simp add: Pagination_def Pagination_start_def a i p Let_def)
qed

lemma C4_call3:
  "Pagination \<lparr>PageSize = 1073741825, PageSizeOverride = 0, PageToken = ''-2147483646'',
               MaxResponse = 2147483647\<rparr> =
     (None,
      Some (status_Error InvalidArgument
        ''Invalid page token: -2147483646. Token must be within the range [0, request.MaxResponse]''))"
proof -
  have a: "Atoi ''-2147483646'' = Some (- 2147483646)"
    by (simp add: Atoi_def is_digit_def digit_val_def)
  show ?thesis
    by (simp add: Pagination_def Pagination_start_def a Let_def)
qed

text \<open>
  Claim C4 fails on the code. With page size 1073741825 and \<open>maxResponse\<close> 2147483647 the
  first call returns the items below 1073741825 and the token \<open>1073741825\<close>; in the
  second the sum \<open>start + actualSize\<close> wraps around, so the page is empty and the token
  is \<open>-2147483646\<close>; the third call rejects that token. The integers from 1073741825 on
  are in no page.
\<close>

theorem C4_overflow_breaks_partition:
  "client_pages 3 1073741825 0 2147483647 [] =
     Some ([page_loop 0 1073741825 [], []],
       Some (status_Error InvalidArgument
         ''Invalid page token: -2147483646. Token must be within the range [0, request.MaxResponse]'')) \<and>
   page_loop 0 1073741825 [] = map word_of_int [0..1073741824]"
proof -
  have three: "(3 :: nat) = Suc (Suc (Suc 0))"
    by simp
  have "page_loop 0 1073741825 [] = map word_of_int [0..1073741824]"
    using page_loop_upto [of 0 1073741825 "[]"] by simp
  then show ?thesis
    unfolding three by (simp add: C4_call1 C4_call2 C4_call3)
qed

end
